theory Spec2Isabelle
  imports Complex_Main
begin

section \<open>The notebook \<open>fixed_effects.ipynb\<close> as a functional program\<close>

text \<open>
  The notebook is one straight-line computation: seed the generator, draw the wide panel
  \<open>people\<close> (cell 3), add the reconstructions and the noise column (cell 6), melt the panel
  and compute \<open>income\<close> (cell 8), then fit and print six regressions (cells 11 to 20).

  NumPy's global generator is threaded through the draws explicitly: a sampler takes the
  generator state and returns the draw with the next state. The samplers themselves, the
  seeding function and scikit-learn's two decompositions are library code; they are
  parameters of the model. A data frame is a record of its columns, each a list indexed by
  row. Columns of dtype \<open>int64\<close> hold integers, and their arithmetic wraps at 64 bits.
  A \<open>float64\<close> column holds the real numbers that its cells denote; every \<open>float64\<close>
  operation of the notebook rounds its exact result, and the rounding function of the
  machine is a parameter as well.
\<close>

subsection \<open>Configuration (cells 3 and 8)\<close>

definition n_people :: nat where
  "n_people = 100"

definition n_years :: nat where
  "n_years = 3"

definition noise_sd :: real where
  "noise_sd = 0"

subsection \<open>64-bit integer columns\<close>

definition int64 :: "int \<Rightarrow> int" where
  \<comment> \<open>the value an \<open>int64\<close> cell holds after an arithmetic result \<open>x\<close> wraps around\<close>
  "int64 x = (x + 2 ^ 63) mod 2 ^ 64 - 2 ^ 63"

subsection \<open>Random draws\<close>

type_synonym 'g poisson_kernel = "real \<Rightarrow> 'g \<Rightarrow> int \<times> 'g"
type_synonym 'g gauss_kernel = "'g \<Rightarrow> real \<times> 'g"
type_synonym rounding = "real \<Rightarrow> real"

fun poisson :: "'g poisson_kernel \<Rightarrow> real list \<Rightarrow> 'g \<Rightarrow> int list \<times> 'g" where
  \<comment> \<open>\<open>np.random.poisson(lam=lams, size=len(lams))\<close>: one draw per rate, in order\<close>
  "poisson rk [] g = ([], g)"
| "poisson rk (lam # lams) g =
     (case rk lam g of (x, g1) \<Rightarrow>
        (case poisson rk lams g1 of (xs, g2) \<Rightarrow> (x # xs, g2)))"

fun normal :: "'g gauss_kernel \<Rightarrow> rounding \<Rightarrow> real \<Rightarrow> real \<Rightarrow> nat \<Rightarrow> 'g
     \<Rightarrow> real list \<times> 'g" where
  \<comment> \<open>\<open>np.random.normal(loc, scale, k)\<close>: \<open>loc + scale * z\<close> in \<open>float64\<close>, the product rounded
      and then the sum, for \<open>k\<close> standard draws \<open>z\<close>\<close>
  "normal gk rnd loc scale 0 g = ([], g)"
| "normal gk rnd loc scale (Suc k) g =
     (case gk g of (z, g1) \<Rightarrow>
        (case normal gk rnd loc scale k g1 of (zs, g2) \<Rightarrow>
           (rnd (loc + rnd (scale * z)) # zs, g2)))"

subsection \<open>Cell 3: the wide panel\<close>

record people =
  person :: "nat list"
  ability :: "int list"
  y1990 :: "int list"
  y1991 :: "int list"
  y1992 :: "int list"

definition add_col :: "int list \<Rightarrow> int list \<Rightarrow> int list" where
  \<comment> \<open>the sum of two \<open>int64\<close> columns of one frame\<close>
  "add_col xs ds = map2 (\<lambda>x d. int64 (x + d)) xs ds"

definition make_people :: "'g poisson_kernel \<Rightarrow> nat \<Rightarrow> 'g \<Rightarrow> people \<times> 'g" where
  "make_people rk n g0 =
     (case poisson rk (replicate n 5) g0 of (ab, g1) \<Rightarrow>
      case poisson rk (map real_of_int ab) g1 of (c1990, g2) \<Rightarrow>
      case poisson rk (map real_of_int ab) g2 of (d1991, g3) \<Rightarrow>
      case poisson rk (map real_of_int ab) g3 of (d1992, g4) \<Rightarrow>
        (\<lparr>person = [0..<n], ability = ab, y1990 = c1990,
          y1991 = add_col c1990 d1991,
          y1992 = add_col (add_col c1990 d1991) d1992\<rparr>, g4))"

subsection \<open>Cell 6: reconstructions and the noise column\<close>

record people_factors = people +
  pca :: "real list"
  factor :: "real list"
  noise :: "real list"

type_synonym decomposition = "int list list \<Rightarrow> real list"

definition X_rows :: "'a people_scheme \<Rightarrow> int list list" where
  \<comment> \<open>\<open>people[["1990", "1991", "1992"]]\<close>, one row per person\<close>
  "X_rows p = map (\<lambda>(a, b, c). [a, b, c]) (zip (y1990 p) (zip (y1991 p) (y1992 p)))"

definition add_factors ::
  "decomposition \<Rightarrow> decomposition \<Rightarrow> 'g gauss_kernel \<Rightarrow> rounding \<Rightarrow> nat \<Rightarrow> people \<Rightarrow> 'g
     \<Rightarrow> people_factors \<times> 'g" where
  "add_factors pca_fit_transform factor_fit_transform gk rnd n p g =
     (case normal gk rnd 0 1 n g of (nz, g1) \<Rightarrow>
        (\<lparr>person = person p, ability = ability p, y1990 = y1990 p, y1991 = y1991 p,
          y1992 = y1992 p,
          pca = pca_fit_transform (X_rows p), factor = factor_fit_transform (X_rows p),
          noise = nz\<rparr>, g1))"

subsection \<open>Cell 8: melt, rename, income\<close>

record melted =
  m_person :: "nat list"
  m_ability :: "int list"
  m_pca :: "real list"
  m_noise :: "real list"
  m_factor :: "real list"
  year :: "string list"
  education_level :: "int list"

record people_melted = melted +
  income :: "real list"

definition melt :: "people_factors \<Rightarrow> melted" where
  \<comment> \<open>\<open>melt(id_vars=['person', 'ability', 'pca', 'noise', 'factor'])\<close> followed by the
      \<open>rename\<close>: the identifier columns are tiled once per remaining column, the remaining
      columns are stacked one after the other, and each stacked row is labelled with the
      name of the column it came from (the name repeated once per row of the frame)\<close>
  "melt p =
     \<lparr>m_person = person p @ person p @ person p,
      m_ability = ability p @ ability p @ ability p,
      m_pca = pca p @ pca p @ pca p,
      m_noise = noise p @ noise p @ noise p,
      m_factor = factor p @ factor p @ factor p,
      year = replicate (length (person p)) ''1990'' @ replicate (length (person p)) ''1991''
               @ replicate (length (person p)) ''1992'',
      education_level = y1990 p @ y1991 p @ y1992 p\<rparr>"

definition eval_income :: "melted \<Rightarrow> int list" where
  \<comment> \<open>\<open>eval("income = 4 + 3 * education_level + ability")\<close> on \<open>int64\<close> columns\<close>
  "eval_income m =
     map2 (\<lambda>e a. int64 (int64 (4 + int64 (3 * e)) + a)) (education_level m) (m_ability m)"

definition assign_income :: "'g gauss_kernel \<Rightarrow> rounding \<Rightarrow> real \<Rightarrow> nat \<Rightarrow> melted \<Rightarrow> 'g
     \<Rightarrow> people_melted \<times> 'g" where
  \<comment> \<open>\<open>assign(income = df["income"] + np.random.normal(0, sd, n * n_years))\<close>: the \<open>int64\<close>
      income is converted to \<open>float64\<close> and the draw is added in \<open>float64\<close>\<close>
  "assign_income gk rnd sd n m g =
     (case normal gk rnd 0 sd (n * n_years) g of (eps, g1) \<Rightarrow>
        (\<lparr>m_person = m_person m, m_ability = m_ability m, m_pca = m_pca m,
          m_noise = m_noise m, m_factor = m_factor m, year = year m,
          education_level = education_level m,
          income = map2 (\<lambda>y e. rnd (rnd (real_of_int y) + e)) (eval_income m) eps\<rparr>, g1))"

subsection \<open>Cells 3 to 8 in sequence\<close>

definition panel ::
  "'g poisson_kernel \<Rightarrow> 'g gauss_kernel \<Rightarrow> rounding \<Rightarrow> decomposition \<Rightarrow> decomposition
     \<Rightarrow> nat \<Rightarrow> real \<Rightarrow> 'g \<Rightarrow> people_melted" where
  "panel rk gk rnd pca_fit_transform factor_fit_transform n sd g0 =
     (case make_people rk n g0 of (p, g1) \<Rightarrow>
      case add_factors pca_fit_transform factor_fit_transform gk rnd n p g1 of (pf, g2) \<Rightarrow>
        fst (assign_income gk rnd sd n (melt pf) g2))"

definition people_melted ::
  "(nat \<Rightarrow> 'g) \<Rightarrow> 'g poisson_kernel \<Rightarrow> 'g gauss_kernel \<Rightarrow> rounding \<Rightarrow> decomposition
     \<Rightarrow> decomposition \<Rightarrow> people_melted" where
  \<comment> \<open>the notebook's run: \<open>np.random.seed(6429)\<close>, 100 people, noise standard deviation 0\<close>
  "people_melted seed rk gk rnd pca_fit_transform factor_fit_transform =
     panel rk gk rnd pca_fit_transform factor_fit_transform n_people noise_sd (seed 6429)"

subsection \<open>Views of a vectorised draw, and the contracts of the library parameters\<close>

definition draws :: "'g poisson_kernel \<Rightarrow> real list \<Rightarrow> 'g \<Rightarrow> int list" where
  \<comment> \<open>the values returned by one call of \<open>np.random.poisson\<close>\<close>
  "draws rk lams g = fst (poisson rk lams g)"

definition advance :: "'g poisson_kernel \<Rightarrow> real list \<Rightarrow> 'g \<Rightarrow> 'g" where
  \<comment> \<open>the generator state that the call leaves behind\<close>
  "advance rk lams g = snd (poisson rk lams g)"

definition count_kernel :: "'g poisson_kernel \<Rightarrow> bool" where
  \<comment> \<open>a Poisson draw is a count, and far below the range of \<open>int64\<close>\<close>
  "count_kernel rk = (\<forall>lam g. 0 \<le> fst (rk lam g) \<and> fst (rk lam g) < 2 ^ 59)"

definition small_counts :: "'g poisson_kernel \<Rightarrow> bool" where
  \<comment> \<open>the counts are small enough for every income of the table to stay below \<open>2 ^ 53\<close>\<close>
  "small_counts rk = (\<forall>lam g. 0 \<le> fst (rk lam g) \<and> fst (rk lam g) < 2 ^ 49)"

definition float64_rounding :: "rounding \<Rightarrow> bool" where
  \<comment> \<open>\<open>float64\<close> holds every integer of magnitude up to \<open>2 ^ 53\<close>, so rounding keeps it\<close>
  "float64_rounding rnd = (\<forall>i. \<bar>i\<bar> \<le> 2 ^ 53 \<longrightarrow> rnd (real_of_int i) = real_of_int i)"

fun gauss_state :: "'g gauss_kernel \<Rightarrow> nat \<Rightarrow> 'g \<Rightarrow> 'g" where
  \<comment> \<open>the generator state after \<open>j\<close> standard-normal draws\<close>
  "gauss_state gk 0 g = g"
| "gauss_state gk (Suc j) g = gauss_state gk j (snd (gk g))"

definition one_per_row :: "decomposition \<Rightarrow> bool" where
  \<comment> \<open>\<open>fit_transform\<close> with one component returns one score per row of its input\<close>
  "one_per_row f = (\<forall>X. length (f X) = length X)"

subsection \<open>A concrete generator: the first five people of the recorded run\<close>

text \<open>
  Cell 4 prints the first five rows of \<open>people\<close>. The generator \<open>replay\<close> hands out a
  prepared list of counts one after the other; \<open>head_draws\<close> is the list of draws that
  produces those five rows (abilities, the 1990 values, the 1991 and the 1992 increments).
\<close>

definition replay :: "int list poisson_kernel" where
  "replay lam g =
     (case g of [] \<Rightarrow> (0, []) | x # xs \<Rightarrow> (if 0 \<le> x \<and> x < 2 ^ 49 then x else 0, xs))"

definition head_draws :: "int list" where
  "head_draws = [3, 3, 3, 5, 3,  5, 3, 4, 6, 1,  4, 2, 3, 4, 6,  4, 0, 5, 4, 3]"

definition head_people :: people where
  "head_people =
     \<lparr>person = [0, 1, 2, 3, 4], ability = [3, 3, 3, 5, 3], y1990 = [5, 3, 4, 6, 1],
      y1991 = [9, 5, 7, 10, 7], y1992 = [13, 5, 12, 14, 10]\<rparr>"

definition zero_gauss :: "int list gauss_kernel" where
  \<comment> \<open>a standard-normal kernel that always draws 0\<close>
  "zero_gauss g = (0, g)"

definition no_rounding :: rounding where
  \<comment> \<open>the rounding of a run in which every result is representable\<close>
  "no_rounding x = x"

definition row_sums :: decomposition where
  \<comment> \<open>a stand-in decomposition: the score of a person is the sum of the three years\<close>
  "row_sums X = map (\<lambda>r. real_of_int (sum_list r)) X"

definition head_melted :: people_melted where
  "head_melted = panel replay zero_gauss no_rounding row_sums row_sums 5 0 head_draws"

subsection \<open>Cells 11 to 20: the regressions\<close>

text \<open>
  Every cell from 11 to 20 builds one model of \<open>income\<close> from a formula, fits it and prints
  the summary of the fit. A formula \<open>income ~ t1 + t2\<close> is kept as the list of its terms;
  the intercept is implicit, as in the formula language. \<open>mixedlm\<close> groups the rows by
  \<open>person\<close>.
\<close>

datatype covariate = Education_level | Ability | Pca | Factor | Noise

datatype model = ols "covariate list" | mixedlm "covariate list"

definition regressions :: "model list" where
  "regressions =
     [ols [Education_level, Ability],
      ols [Education_level],
      mixedlm [Education_level],
      ols [Education_level, Pca],
      ols [Education_level, Factor],
      ols [Education_level, Noise]]"

definition report :: "(model \<Rightarrow> people_melted \<Rightarrow> 'res) \<Rightarrow> ('res \<Rightarrow> string) \<Rightarrow> people_melted
     \<Rightarrow> string list" where
  \<comment> \<open>the texts printed by \<open>print(mod.fit().summary())\<close>, cell after cell\<close>
  "report fit summary d = map (\<lambda>m. summary (fit m d)) regressions"

subsection \<open>Ordinary least squares\<close>

text \<open>
  The solver behind \<open>smf.ols(...).fit()\<close> is library code. What it computes is the
  coefficient vector, intercept first, that minimises the sum of squared residuals of
  \<open>income\<close>; \<open>least_squares\<close> says so over the real numbers, which stand for \<open>float64\<close>.
\<close>

fun column :: "people_melted \<Rightarrow> covariate \<Rightarrow> real list" where
  "column d Education_level = map real_of_int (education_level d)"
| "column d Ability = map real_of_int (m_ability d)"
| "column d Pca = m_pca d"
| "column d Factor = m_factor d"
| "column d Noise = m_noise d"

definition design_row :: "people_melted \<Rightarrow> covariate list \<Rightarrow> nat \<Rightarrow> real list" where
  \<comment> \<open>the values of the formula's terms in row \<open>j\<close>\<close>
  "design_row d ts j = map (\<lambda>t. column d t ! j) ts"

fun predict :: "real list \<Rightarrow> real list \<Rightarrow> real" where
  \<comment> \<open>intercept plus the coefficients times the terms\<close>
  "predict [] xs = 0"
| "predict (b0 # bs) xs = b0 + sum_list (map2 (*) bs xs)"

definition sse :: "people_melted \<Rightarrow> covariate list \<Rightarrow> real list \<Rightarrow> real" where
  "sse d ts b = (\<Sum>j<length (income d). (income d ! j - predict b (design_row d ts j))\<^sup>2)"

definition least_squares :: "people_melted \<Rightarrow> covariate list \<Rightarrow> real list \<Rightarrow> bool" where
  "least_squares d ts b =
     (length b = Suc (length ts)
      \<and> (\<forall>b'. length b' = Suc (length ts) \<longrightarrow> sse d ts b \<le> sse d ts b'))"

definition mean :: "real list \<Rightarrow> real" where
  "mean xs = sum_list xs / real (length xs)"

definition covariance :: "real list \<Rightarrow> real list \<Rightarrow> real" where
  \<comment> \<open>the sample covariance of two columns; its sign is the sign of their correlation\<close>
  "covariance xs ys = mean (map2 (*) xs ys) - mean xs * mean ys"

subsection \<open>A generator for a run of 100 people that starts like the recorded one\<close>

definition recorded_stream :: "int list" where
  \<comment> \<open>the draws of \<open>head_draws\<close> for the first five people, 0 for the other 95\<close>
  "recorded_stream =
     [3, 3, 3, 5, 3] @ replicate 95 0 @ [5, 3, 4, 6, 1] @ replicate 95 0
       @ [4, 2, 3, 4, 6] @ replicate 95 0 @ [4, 0, 5, 4, 3] @ replicate 95 0"

definition replay_seed :: "nat \<Rightarrow> int list" where
  "replay_seed s = (if s = 6429 then recorded_stream else [])"

definition replayed :: people_melted where
  "replayed = people_melted replay_seed replay zero_gauss no_rounding row_sums row_sums"

section \<open>Properties of the draws\<close>

lemma int64_id: "- (2 ^ 63) \<le> x \<Longrightarrow> x < 2 ^ 63 \<Longrightarrow> int64 x = x"
  by (simp add: int64_def)

lemma poisson_Cons:
  "poisson rk (lam # lams) g =
     (fst (rk lam g) # fst (poisson rk lams (snd (rk lam g))),
      snd (poisson rk lams (snd (rk lam g))))"
  by (simp add: case_prod_unfold)

lemma normal_Suc:
  "normal gk rnd loc scale (Suc k) g =
     (rnd (loc + rnd (scale * fst (gk g))) # fst (normal gk rnd loc scale k (snd (gk g))),
      snd (normal gk rnd loc scale k (snd (gk g))))"
  by (simp add: case_prod_unfold)

lemma length_poisson: "length (fst (poisson rk lams g)) = length lams"
  by (induction lams arbitrary: g) (simp_all add: poisson_Cons del: poisson.simps(2))

lemma poisson_nth:
  "i < length lams \<Longrightarrow>
     fst (poisson rk lams g) ! i = fst (rk (lams ! i) (snd (poisson rk (take i lams) g)))"
proof (induction lams arbitrary: i g)
  case Nil
  then show ?case by simp
next
  case (Cons lam lams)
  show ?case
  proof (cases i)
    case 0
    then show ?thesis by (simp add: poisson_Cons del: poisson.simps(2))
  next
    case (Suc k)
    with Cons.prems have "k < length lams" by simp
    from Cons.IH [OF this] Suc show ?thesis
      by (simp add: poisson_Cons del: poisson.simps(2))
  qed
qed

lemma poisson_range:
  "count_kernel rk \<Longrightarrow> x \<in> set (fst (poisson rk lams g)) \<Longrightarrow> 0 \<le> x \<and> x < 2 ^ 59"
proof (induction lams arbitrary: g)
  case Nil
  then show ?case by simp
next
  case (Cons lam lams)
  from Cons.prems(2)
  have "x = fst (rk lam g) \<or> x \<in> set (fst (poisson rk lams (snd (rk lam g))))"
    by (simp add: poisson_Cons del: poisson.simps(2))
  then show ?case
  proof
    assume "x = fst (rk lam g)"
    with Cons.prems(1) show ?thesis unfolding count_kernel_def by blast
  next
    assume "x \<in> set (fst (poisson rk lams (snd (rk lam g))))"
    with Cons.IH [OF Cons.prems(1)] show ?thesis by blast
  qed
qed

lemma length_normal: "length (fst (normal gk rnd loc scale k g)) = k"
  by (induction k arbitrary: g) (simp_all add: normal_Suc del: normal.simps(2))

lemma normal_nth:
  "j < k \<Longrightarrow>
     fst (normal gk rnd loc scale k g) ! j
       = rnd (loc + rnd (scale * fst (gk (gauss_state gk j g))))"
proof (induction k arbitrary: j g)
  case 0
  then show ?case by simp
next
  case (Suc k)
  show ?case
  proof (cases j)
    case 0
    then show ?thesis by (simp add: normal_Suc del: normal.simps(2))
  next
    case (Suc i)
    with Suc.prems have "i < k" by simp
    from Suc.IH [OF this, of "snd (gk g)"] Suc show ?thesis
      by (simp add: normal_Suc del: normal.simps(2))
  qed
qed

lemma rounding_of_int:
  "float64_rounding rnd \<Longrightarrow> \<bar>i\<bar> \<le> 2 ^ 53 \<Longrightarrow> rnd (real_of_int i) = real_of_int i"
  by (simp add: float64_rounding_def)

lemma rounding_zero: "float64_rounding rnd \<Longrightarrow> rnd 0 = 0"
  using rounding_of_int [of rnd 0] by simp

lemma normal_zero_scale:
  "float64_rounding rnd \<Longrightarrow> j < k \<Longrightarrow> fst (normal gk rnd 0 0 k g) ! j = 0"
  by (simp add: normal_nth rounding_zero)

lemma small_counts_count_kernel: "small_counts rk \<Longrightarrow> count_kernel rk"
proof -
  assume s: "small_counts rk"
  have "0 \<le> fst (rk lam g) \<and> fst (rk lam g) < 2 ^ 59" for lam g
  proof -
    from s have "0 \<le> fst (rk lam g) \<and> fst (rk lam g) < 2 ^ 49"
      unfolding small_counts_def by blast
    then show ?thesis by simp
  qed
  then show ?thesis by (simp add: count_kernel_def)
qed

lemma length_draws: "length (draws rk lams g) = length lams"
  by (simp add: draws_def length_poisson)

lemma draws_nth:
  "i < length lams \<Longrightarrow> draws rk lams g ! i = fst (rk (lams ! i) (advance rk (take i lams) g))"
  by (simp add: draws_def advance_def poisson_nth)

lemma draws_range:
  "count_kernel rk \<Longrightarrow> i < length lams \<Longrightarrow>
     0 \<le> draws rk lams g ! i \<and> draws rk lams g ! i < 2 ^ 59"
  using poisson_range [of rk "draws rk lams g ! i" lams g]
  by (simp add: draws_def length_poisson)

section \<open>The wide panel\<close>

lemma make_people_cols:
  assumes "make_people rk n g0 = (p, g')"
  shows "person p = [0..<n]"
    and "ability p = draws rk (replicate n 5) g0"
    and "y1990 p = draws rk (map real_of_int (ability p)) (advance rk (replicate n 5) g0)"
    and "y1991 p = add_col (y1990 p) (draws rk (map real_of_int (ability p))
           (advance rk (map real_of_int (ability p)) (advance rk (replicate n 5) g0)))"
    and "y1992 p = add_col (y1991 p) (draws rk (map real_of_int (ability p))
           (advance rk (map real_of_int (ability p))
             (advance rk (map real_of_int (ability p)) (advance rk (replicate n 5) g0))))"
  using assms
  by (auto simp add: make_people_def draws_def advance_def case_prod_unfold)

lemma make_people_lengths:
  assumes "make_people rk n g0 = (p, g')"
  shows "length (person p) = n" "length (ability p) = n" "length (y1990 p) = n"
    "length (y1991 p) = n" "length (y1992 p) = n"
  using assms
  by (auto simp add: make_people_def add_col_def length_poisson case_prod_unfold)

lemma add_col_nth:
  "i < length xs \<Longrightarrow> i < length ds \<Longrightarrow> add_col xs ds ! i = int64 (xs ! i + ds ! i)"
  by (simp add: add_col_def)

lemma make_people_sums:
  assumes "count_kernel rk" and "make_people rk n g0 = (p, g')" and "i < n"
  shows "y1991 p ! i =
           y1990 p ! i + draws rk (map real_of_int (ability p))
             (advance rk (map real_of_int (ability p)) (advance rk (replicate n 5) g0)) ! i"
    and "y1992 p ! i =
           y1991 p ! i + draws rk (map real_of_int (ability p))
             (advance rk (map real_of_int (ability p))
               (advance rk (map real_of_int (ability p)) (advance rk (replicate n 5) g0))) ! i"
    and "0 \<le> ability p ! i" and "ability p ! i < 2 ^ 59"
    and "0 \<le> y1990 p ! i" and "y1990 p ! i < 2 ^ 59"
    and "0 \<le> y1991 p ! i" and "y1991 p ! i < 2 * 2 ^ 59"
    and "0 \<le> y1992 p ! i" and "y1992 p ! i < 3 * 2 ^ 59"
proof -
  let ?lam = "map real_of_int (ability p)"
  let ?g1 = "advance rk (replicate n 5) g0"
  let ?d1 = "draws rk ?lam (advance rk ?lam ?g1)"
  let ?d2 = "draws rk ?lam (advance rk ?lam (advance rk ?lam ?g1))"
  note len = make_people_lengths [OF assms(2)]
  note cols = make_people_cols [OF assms(2)]
  have i: "i < length ?lam" using len assms(3) by simp
  have ra: "0 \<le> ability p ! i \<and> ability p ! i < 2 ^ 59"
    using draws_range [OF assms(1), of i "replicate n 5" g0] cols(2) assms(3) by simp
  have r0: "0 \<le> y1990 p ! i \<and> y1990 p ! i < 2 ^ 59"
    using draws_range [OF assms(1) i] cols(3) by simp
  have r1: "0 \<le> ?d1 ! i \<and> ?d1 ! i < 2 ^ 59" by (rule draws_range [OF assms(1) i])
  have r2: "0 \<le> ?d2 ! i \<and> ?d2 ! i < 2 ^ 59" by (rule draws_range [OF assms(1) i])
  have "y1991 p ! i = int64 (y1990 p ! i + ?d1 ! i)"
    using cols(4) len assms(3) add_col_nth [of i "y1990 p" ?d1] by (simp add: length_draws)
  with r0 r1 have e1: "y1991 p ! i = y1990 p ! i + ?d1 ! i" by (simp add: int64_id)
  have "y1992 p ! i = int64 (y1991 p ! i + ?d2 ! i)"
    using cols(5) len assms(3) add_col_nth [of i "y1991 p" ?d2] by (simp add: length_draws)
  with e1 r0 r1 r2 have e2: "y1992 p ! i = y1991 p ! i + ?d2 ! i" by (simp add: int64_id)
  show "y1991 p ! i = y1990 p ! i + ?d1 ! i" by (rule e1)
  show "y1992 p ! i = y1991 p ! i + ?d2 ! i" by (rule e2)
  show "0 \<le> ability p ! i" "ability p ! i < 2 ^ 59" using ra by simp_all
  show "0 \<le> y1990 p ! i" "y1990 p ! i < 2 ^ 59" using r0 by simp_all
  show "0 \<le> y1991 p ! i" "y1991 p ! i < 2 * 2 ^ 59" using e1 r0 r1 by simp_all
  show "0 \<le> y1992 p ! i" "y1992 p ! i < 3 * 2 ^ 59" using e1 e2 r0 r1 r2 by simp_all
qed

lemma draws_small:
  "small_counts rk \<Longrightarrow> i < length lams \<Longrightarrow> draws rk lams g ! i < 2 ^ 49"
  by (simp add: draws_nth small_counts_def)

lemma make_people_small:
  assumes "small_counts rk" and "make_people rk n g0 = (p, g')" and "i < n"
  shows "ability p ! i < 2 ^ 49" and "y1990 p ! i < 2 ^ 49"
    and "y1991 p ! i < 2 * 2 ^ 49" and "y1992 p ! i < 3 * 2 ^ 49"
proof -
  let ?lam = "map real_of_int (ability p)"
  note len = make_people_lengths [OF assms(2)]
  note cols = make_people_cols [OF assms(2)]
  note sums = make_people_sums [OF small_counts_count_kernel [OF assms(1)] assms(2,3)]
  have i: "i < length ?lam" using len assms(3) by simp
  show a: "ability p ! i < 2 ^ 49"
    using draws_small [OF assms(1), of i "replicate n 5" g0] cols(2) assms(3) by simp
  show c0: "y1990 p ! i < 2 ^ 49"
    using draws_small [OF assms(1) i] cols(3) by simp
  show c1: "y1991 p ! i < 2 * 2 ^ 49"
    using sums(1) c0
      draws_small [OF assms(1) i, of "advance rk ?lam (advance rk (replicate n 5) g0)"]
    by simp
  show "y1992 p ! i < 3 * 2 ^ 49"
    using sums(2) c1
      draws_small [OF assms(1) i,
        of "advance rk ?lam (advance rk ?lam (advance rk (replicate n 5) g0))"]
    by simp
qed

lemma small_counts_replay: "small_counts replay"
  by (simp add: small_counts_def replay_def split: list.split)

lemma count_kernel_replay: "count_kernel replay"
  by (rule small_counts_count_kernel [OF small_counts_replay])

lemma make_people_head: "make_people replay 5 head_draws = (head_people, [])"
  by (simp add: make_people_def head_draws_def head_people_def replay_def add_col_def
      int64_def eval_nat_numeral upt_rec)

text \<open>
  Claim C2. The generator draws one ability per person at rate 5; person \<open>i\<close>'s 1990 value
  is a draw at the rate given by that person's own ability; the 1991 value is the 1990
  value plus a further draw at the same rate, and the 1992 value is the 1991 value plus
  another one. Every draw is one call of the sampling kernel at its own generator state:
  the state left by the draws made before it (\<open>advance\<close>), in the order ability column,
  1990, 1991 increments, 1992 increments.
\<close>

theorem panel_generator_draws:
  assumes "count_kernel rk" and "make_people rk n g0 = (p, g')" and "i < n"
    and "lam = map real_of_int (ability p)"
    and "g1 = advance rk (replicate n 5) g0"
    and "g2 = advance rk lam g1"
    and "g3 = advance rk lam g2"
  shows "length (ability p) = n
     \<and> ability p ! i = fst (rk 5 (advance rk (replicate i 5) g0))
     \<and> lam ! i = real_of_int (ability p ! i)
     \<and> y1990 p ! i = fst (rk (lam ! i) (advance rk (take i lam) g1))
     \<and> y1991 p ! i = y1990 p ! i + fst (rk (lam ! i) (advance rk (take i lam) g2))
     \<and> y1992 p ! i = y1991 p ! i + fst (rk (lam ! i) (advance rk (take i lam) g3))"
proof -
  note len = make_people_lengths [OF assms(2)]
  note cols = make_people_cols [OF assms(2)]
  note sums = make_people_sums [OF assms(1,2,3)]
  have i: "i < length lam" using len assms(3,4) by simp
  have a: "ability p ! i = fst (rk 5 (advance rk (replicate i 5) g0))"
    using draws_nth [of i "replicate n 5" rk g0] assms(3) cols(2) by (simp add: min_def)
  have l: "lam ! i = real_of_int (ability p ! i)" using assms(3,4) len by simp
  have c0: "y1990 p ! i = fst (rk (lam ! i) (advance rk (take i lam) g1))"
    using draws_nth [OF i, of rk g1] cols(3) assms(4,5) by simp
  have c1: "y1991 p ! i = y1990 p ! i + fst (rk (lam ! i) (advance rk (take i lam) g2))"
    using draws_nth [OF i, of rk g2] sums(1) assms(4,5,6) by simp
  have c2: "y1992 p ! i = y1991 p ! i + fst (rk (lam ! i) (advance rk (take i lam) g3))"
    using draws_nth [OF i, of rk g3] sums(2) assms(4,5,6,7) by simp
  from len(2) a l c0 c1 c2 show ?thesis by simp
qed

theorem panel_generator_draws_witness:
  "count_kernel replay \<and> make_people replay 5 head_draws = (head_people, []) \<and> (1::nat) < 5
     \<and> ability head_people ! 1 = fst (replay 5 (advance replay (replicate 1 5) head_draws))
     \<and> y1990 head_people ! 1 = 3
     \<and> y1991 head_people ! 1 =
         y1990 head_people ! 1 + fst (replay (real_of_int (ability head_people ! 1))
           (advance replay (take 1 (map real_of_int (ability head_people)))
             (advance replay (map real_of_int (ability head_people))
               (advance replay (replicate 5 5) head_draws))))"
proof -
  have i: "(1::nat) < 5" by simp
  from panel_generator_draws [OF count_kernel_replay make_people_head i refl refl refl refl]
  show ?thesis
    using count_kernel_replay make_people_head by (simp add: head_people_def)
qed

text \<open>
  Claim C3. For every person the observed values do not decrease from 1990 to 1991 and
  from 1991 to 1992.
\<close>

theorem observed_trait_non_decreasing:
  assumes "count_kernel rk" and "make_people rk n g0 = (p, g')" and "i < n"
  shows "y1990 p ! i \<le> y1991 p ! i \<and> y1991 p ! i \<le> y1992 p ! i"
proof -
  let ?lam = "map real_of_int (ability p)"
  let ?g2 = "advance rk ?lam (advance rk (replicate n 5) g0)"
  have i: "i < length ?lam" using make_people_lengths(2) [OF assms(2)] assms(3) by simp
  have "0 \<le> draws rk ?lam ?g2 ! i" and "0 \<le> draws rk ?lam (advance rk ?lam ?g2) ! i"
    using draws_range [OF assms(1) i] by simp_all
  with make_people_sums(1,2) [OF assms] show ?thesis by simp
qed

theorem observed_trait_non_decreasing_witness:
  "count_kernel replay \<and> make_people replay 5 head_draws = (head_people, []) \<and> (1::nat) < 5
     \<and> y1990 head_people ! 1 \<le> y1991 head_people ! 1
     \<and> y1991 head_people ! 1 \<le> y1992 head_people ! 1"
  using observed_trait_non_decreasing [OF count_kernel_replay make_people_head, of 1]
    count_kernel_replay make_people_head
  by simp

section \<open>The long table\<close>

lemma nth_tiled:
  assumes "j < 3 * length xs"
  shows "(xs @ xs @ xs) ! j = xs ! (j mod length xs)"
proof -
  let ?n = "length xs"
  consider "j < ?n" | "?n \<le> j" "j < 2 * ?n" | "2 * ?n \<le> j" by linarith
  then show ?thesis
  proof cases
    case 1
    then show ?thesis by (simp add: nth_append)
  next
    case 2
    then have "j - ?n < ?n" and "j = (j - ?n) + 1 * ?n" by simp_all
    then have "j mod ?n = j - ?n" by (metis mod_less mod_mult_self1)
    with 2 show ?thesis by (simp add: nth_append)
  next
    case 3
    with assms have "j - 2 * ?n < ?n" and "j = (j - 2 * ?n) + 2 * ?n" by simp_all
    then have "j mod ?n = j - 2 * ?n" by (metis mod_less mod_mult_self1)
    moreover from 3 have "j - ?n - ?n = j - 2 * ?n" by simp
    ultimately show ?thesis using 3 by (simp add: nth_append)
  qed
qed

lemma add_factors_cols:
  assumes "add_factors pca_ft fa_ft gk rnd n p g = (pf, g')"
  shows "person pf = person p" "ability pf = ability p" "y1990 pf = y1990 p"
    "y1991 pf = y1991 p" "y1992 pf = y1992 p"
    "pca pf = pca_ft (X_rows p)" "factor pf = fa_ft (X_rows p)"
    "noise pf = fst (normal gk rnd 0 1 n g)"
  using assms by (auto simp add: add_factors_def case_prod_unfold)

lemma length_X_rows:
  "length (X_rows p) = min (length (y1990 p)) (min (length (y1991 p)) (length (y1992 p)))"
  by (simp add: X_rows_def)

lemma assign_income_cols:
  "m_person (fst (assign_income gk rnd sd n m g)) = m_person m"
  "m_ability (fst (assign_income gk rnd sd n m g)) = m_ability m"
  "m_pca (fst (assign_income gk rnd sd n m g)) = m_pca m"
  "m_noise (fst (assign_income gk rnd sd n m g)) = m_noise m"
  "m_factor (fst (assign_income gk rnd sd n m g)) = m_factor m"
  "year (fst (assign_income gk rnd sd n m g)) = year m"
  "education_level (fst (assign_income gk rnd sd n m g)) = education_level m"
  "income (fst (assign_income gk rnd sd n m g)) =
     map2 (\<lambda>y e. rnd (rnd (real_of_int y) + e)) (eval_income m)
       (fst (normal gk rnd 0 sd (n * n_years) g))"
  by (simp_all add: assign_income_def case_prod_unfold)

lemma length_eval_income:
  "length (eval_income m) = min (length (education_level m)) (length (m_ability m))"
  by (simp add: eval_income_def)

lemma melt_cols:
  assumes "make_people rk n g0 = (p, g1)"
    and "add_factors pca_ft fa_ft gk rnd n p g1 = (pf, g2)"
    and "m = fst (assign_income gk rnd sd n (melt pf) g2)"
  shows "m_person m = [0..<n] @ [0..<n] @ [0..<n]"
    and "year m = replicate n ''1990'' @ replicate n ''1991'' @ replicate n ''1992''"
    and "education_level m = y1990 p @ y1991 p @ y1992 p"
    and "m_ability m = ability p @ ability p @ ability p"
    and "m_pca m = pca pf @ pca pf @ pca pf"
    and "m_factor m = factor pf @ factor pf @ factor pf"
    and "m_noise m = noise pf @ noise pf @ noise pf"
    and "income m = map2 (\<lambda>y e. rnd (rnd (real_of_int y) + e)) (eval_income (melt pf))
                      (fst (normal gk rnd 0 sd (n * n_years) g2))"
  using assms(3) add_factors_cols [OF assms(2)] make_people_cols(1) [OF assms(1)]
  by (simp_all add: assign_income_cols melt_def)

lemma panel_stages:
  "\<exists>p g1 pf g2. make_people rk n g0 = (p, g1)
     \<and> add_factors pca_ft fa_ft gk rnd n p g1 = (pf, g2)
     \<and> panel rk gk rnd pca_ft fa_ft n sd g0 = fst (assign_income gk rnd sd n (melt pf) g2)"
proof -
  obtain p g1 where a: "make_people rk n g0 = (p, g1)" by (cases "make_people rk n g0")
  obtain pf g2 where b: "add_factors pca_ft fa_ft gk rnd n p g1 = (pf, g2)"
    by (cases "add_factors pca_ft fa_ft gk rnd n p g1")
  have "panel rk gk rnd pca_ft fa_ft n sd g0 = fst (assign_income gk rnd sd n (melt pf) g2)"
    using a b by (simp add: panel_def)
  with a b show ?thesis by blast
qed

lemma distinct_person_year:
  "distinct (zip ([0..<n] @ [0..<n] @ [0..<n])
      (replicate n ''1990'' @ replicate n ''1991'' @ replicate n ''1992''))"
proof -
  have d: "\<And>s::string. distinct (zip [0..<n] (replicate n s))"
    by (simp add: distinct_zipI1)
  have "zip ([0..<n] @ [0..<n] @ [0..<n])
      (replicate n ''1990'' @ replicate n ''1991'' @ replicate n ''1992'')
    = zip [0..<n] (replicate n ''1990'') @ zip [0..<n] (replicate n ''1991'')
        @ zip [0..<n] (replicate n ''1992'')"
    by simp
  moreover have "distinct (zip [0..<n] (replicate n ''1990'') @ zip [0..<n] (replicate n ''1991'')
        @ zip [0..<n] (replicate n ''1992''))"
    using d by (auto dest!: set_zip_rightD)
  ultimately show ?thesis by simp
qed

lemma set_person_year:
  "set (zip ([0..<n] @ [0..<n] @ [0..<n])
      (replicate n ''1990'' @ replicate n ''1991'' @ replicate n ''1992''))
   = {0..<n} \<times> {''1990'', ''1991'', ''1992''}"
proof -
  have s: "\<And>s::string. set (zip [0..<n] (replicate n s)) = {0..<n} \<times> {s}"
  proof -
    fix s :: string
    have "zip [0..<n] (replicate n s) = map (\<lambda>i. (i, s)) [0..<n]"
      by (simp add: zip_replicate2)
    then show "set (zip [0..<n] (replicate n s)) = {0..<n} \<times> {s}" by auto
  qed
  have "zip ([0..<n] @ [0..<n] @ [0..<n])
      (replicate n ''1990'' @ replicate n ''1991'' @ replicate n ''1992'')
    = zip [0..<n] (replicate n ''1990'') @ zip [0..<n] (replicate n ''1991'')
        @ zip [0..<n] (replicate n ''1992'')"
    by simp
  then show ?thesis using s by auto
qed

lemma income_nth:
  assumes "small_counts rk" and "float64_rounding rnd"
    and "make_people rk n g0 = (p, g1)"
    and "add_factors pca_ft fa_ft gk rnd n p g1 = (pf, g2)"
    and "m = fst (assign_income gk rnd sd n (melt pf) g2)"
    and "j < n * n_years"
  shows "income m ! j =
           rnd (4 + 3 * real_of_int (education_level m ! j) + real_of_int (m_ability m ! j)
                + fst (normal gk rnd 0 sd (n * n_years) g2) ! j)"
    and "\<bar>4 + 3 * education_level m ! j + m_ability m ! j\<bar> \<le> 2 ^ 53"
proof -
  let ?eps = "fst (normal gk rnd 0 sd (n * n_years) g2)"
  let ?y = "4 + 3 * education_level m ! j + m_ability m ! j"
  note cols = melt_cols [OF assms(3,4,5)]
  note len = make_people_lengths [OF assms(3)]
  have j: "j < 3 * n" using assms(6) by (simp add: n_years_def mult.commute)
  then have n: "0 < n" by simp
  then have i: "j mod n < n" by simp
  note sums = make_people_sums [OF small_counts_count_kernel [OF assms(1)] assms(3) i]
  note small = make_people_small [OF assms(1,3) i]
  have a: "m_ability m ! j = ability p ! (j mod n)"
    using nth_tiled [of j "ability p"] j len(2) cols(4) by simp
  consider "j < n" | "n \<le> j" "j < 2 * n" | "2 * n \<le> j" by linarith
  then have "\<exists>c \<in> {y1990 p, y1991 p, y1992 p}. education_level m ! j = c ! (j mod n)"
  proof cases
    case 1
    then show ?thesis using cols(3) len by (simp add: nth_append)
  next
    case 2
    then have "j - n < n" and "j = (j - n) + 1 * n" by simp_all
    then have "j mod n = j - n" by (metis mod_less mod_mult_self1)
    with 2 show ?thesis using cols(3) len by (simp add: nth_append)
  next
    case 3
    with j have "j - 2 * n < n" and "j = (j - 2 * n) + 2 * n" by simp_all
    then have "j mod n = j - 2 * n" by (metis mod_less mod_mult_self1)
    moreover from 3 have "j - n - n = j - 2 * n" by simp
    ultimately show ?thesis using 3 cols(3) len by (simp add: nth_append)
  qed
  then have e: "0 \<le> education_level m ! j \<and> education_level m ! j < 3 * 2 ^ 49"
    using sums(5,7,9) small(2,3,4) by auto
  have le: "j < length (education_level m)" "j < length (m_ability m)"
    using cols(3,4) len j by simp_all
  have ev: "eval_income (melt pf) ! j =
      int64 (int64 (4 + int64 (3 * education_level m ! j)) + m_ability m ! j)"
    using le assms(5) by (simp add: eval_income_def assign_income_cols)
  have y: "eval_income (melt pf) ! j = ?y"
    using e a sums(3) small(1) unfolding ev by (simp add: int64_id)
  show b: "\<bar>?y\<bar> \<le> 2 ^ 53" using e a sums(3) small(1) by simp
  then have r: "rnd (real_of_int ?y) = real_of_int ?y"
    by (rule rounding_of_int [OF assms(2)])
  have "j < length (eval_income (melt pf))"
    using le assms(5) by (simp add: length_eval_income assign_income_cols)
  moreover have "j < length ?eps" using assms(6) by (simp add: length_normal)
  ultimately have "income m ! j = rnd (rnd (real_of_int ?y) + ?eps ! j)"
    using cols(8) y by simp
  then show "income m ! j =
           rnd (4 + 3 * real_of_int (education_level m ! j) + real_of_int (m_ability m ! j)
                + ?eps ! j)"
    unfolding r by simp
qed

lemma float64_rounding_no_rounding: "float64_rounding no_rounding"
  by (simp add: float64_rounding_def no_rounding_def)

lemma one_per_row_row_sums: "one_per_row row_sums"
  by (simp add: one_per_row_def row_sums_def)

lemma head_melted_value:
  "head_melted =
     \<lparr>m_person = [0, 1, 2, 3, 4, 0, 1, 2, 3, 4, 0, 1, 2, 3, 4],
      m_ability = [3, 3, 3, 5, 3, 3, 3, 3, 5, 3, 3, 3, 3, 5, 3],
      m_pca = [27, 13, 23, 30, 18, 27, 13, 23, 30, 18, 27, 13, 23, 30, 18],
      m_noise = [0, 0, 0, 0, 0, 0, 0, 0, 0, 0, 0, 0, 0, 0, 0],
      m_factor = [27, 13, 23, 30, 18, 27, 13, 23, 30, 18, 27, 13, 23, 30, 18],
      year = [''1990'', ''1990'', ''1990'', ''1990'', ''1990'', ''1991'', ''1991'', ''1991'',
              ''1991'', ''1991'', ''1992'', ''1992'', ''1992'', ''1992'', ''1992''],
      education_level = [5, 3, 4, 6, 1, 9, 5, 7, 10, 7, 13, 5, 12, 14, 10],
      income = [22, 16, 19, 27, 10, 34, 22, 28, 39, 28, 46, 22, 43, 51, 37]\<rparr>"
  unfolding head_melted_def panel_def make_people_head
  by (simp add: add_factors_def melt_def assign_income_def eval_income_def head_people_def
      X_rows_def row_sums_def zero_gauss_def no_rounding_def n_years_def int64_def
      eval_nat_numeral)

text \<open>
  Claim C10. The long table has one row for every pair of a person and a year and no
  other row: \<open>n\<close> times \<open>n_years\<close> rows for \<open>n\<close> people, 300 rows in the notebook's run, and
  the pairs of the \<open>person\<close> and \<open>year\<close> columns are pairwise different and are exactly the
  pairs of a person \<open>0, \<dots>, n - 1\<close> with one of the three years.
\<close>

theorem melt_one_row_per_person_and_year:
  "(let m = panel rk gk rnd pca_ft fa_ft n sd g0 in
      length (m_person m) = n * n_years \<and> length (year m) = n * n_years
      \<and> length (education_level m) = n * n_years \<and> length (income m) = n * n_years
      \<and> distinct (zip (m_person m) (year m))
      \<and> set (zip (m_person m) (year m)) = {0..<n} \<times> {''1990'', ''1991'', ''1992''})
   \<and> length (m_person (people_melted seed rk gk rnd pca_ft fa_ft)) = 300"
proof -
  have gen: "length (m_person m) = n * n_years \<and> length (year m) = n * n_years
      \<and> length (education_level m) = n * n_years \<and> length (income m) = n * n_years
      \<and> distinct (zip (m_person m) (year m))
      \<and> set (zip (m_person m) (year m)) = {0..<n} \<times> {''1990'', ''1991'', ''1992''}"
    if "m = panel rk gk rnd pca_ft fa_ft n sd g0" for m n sd g0
  proof -
    obtain p g1 pf g2 where a: "make_people rk n g0 = (p, g1)"
      and b: "add_factors pca_ft fa_ft gk rnd n p g1 = (pf, g2)"
      and c: "panel rk gk rnd pca_ft fa_ft n sd g0 = fst (assign_income gk rnd sd n (melt pf) g2)"
      using panel_stages [of rk n g0 pca_ft fa_ft gk rnd sd] by blast
    from that c have m: "m = fst (assign_income gk rnd sd n (melt pf) g2)" by simp
    note cols = melt_cols [OF a b m]
    note len = make_people_lengths [OF a]
    have "length (eval_income (melt pf)) = n * n_years"
      using add_factors_cols [OF b] len
      by (simp add: length_eval_income melt_def n_years_def)
    then have "length (income m) = n * n_years"
      using cols(8) by (simp add: length_normal)
    moreover have "length (m_person m) = n * n_years" "length (year m) = n * n_years"
      "length (education_level m) = n * n_years"
      using cols(1,2,3) len by (simp_all add: n_years_def)
    moreover have "distinct (zip (m_person m) (year m))"
      using cols(1,2) distinct_person_year [of n] by simp
    moreover have "set (zip (m_person m) (year m)) = {0..<n} \<times> {''1990'', ''1991'', ''1992''}"
      using cols(1,2) set_person_year [of n] by simp
    ultimately show ?thesis by simp
  qed
  have "length (m_person (people_melted seed rk gk rnd pca_ft fa_ft)) = 300"
    using gen [OF refl, of n_people noise_sd "seed 6429"]
    by (simp add: people_melted_def n_people_def n_years_def)
  with gen [OF refl, of n sd g0] show ?thesis by (simp add: Let_def)
qed

text \<open>
  Claim C5. Two rows of the long table that belong to the same person carry the same
  ability, the same PCA score, the same factor score and the same noise value.
\<close>

theorem entity_columns_constant:
  assumes "one_per_row pca_ft" and "one_per_row fa_ft"
    and "m = panel rk gk rnd pca_ft fa_ft n sd g0"
    and "j < length (m_person m)" and "k < length (m_person m)"
    and "m_person m ! j = m_person m ! k"
  shows "m_ability m ! j = m_ability m ! k \<and> m_pca m ! j = m_pca m ! k
     \<and> m_factor m ! j = m_factor m ! k \<and> m_noise m ! j = m_noise m ! k"
proof -
  obtain p g1 pf g2 where a: "make_people rk n g0 = (p, g1)"
    and b: "add_factors pca_ft fa_ft gk rnd n p g1 = (pf, g2)"
    and c: "panel rk gk rnd pca_ft fa_ft n sd g0 = fst (assign_income gk rnd sd n (melt pf) g2)"
    using panel_stages [of rk n g0 pca_ft fa_ft gk rnd sd] by blast
  from assms(3) c have m: "m = fst (assign_income gk rnd sd n (melt pf) g2)" by simp
  note cols = melt_cols [OF a b m]
  note len = make_people_lengths [OF a]
  note fac = add_factors_cols [OF b]
  have lx: "length (X_rows p) = n" using len by (simp add: length_X_rows)
  have lp: "length (pca pf) = n" "length (factor pf) = n" "length (noise pf) = n"
    using fac(6,7,8) lx assms(1,2) by (simp_all add: one_per_row_def length_normal)
  have j: "j < 3 * n" and k: "k < 3 * n" using assms(4,5) cols(1) by simp_all
  then have n: "0 < n" by simp
  have "m_person m ! j = j mod n"
    using nth_tiled [of j "[0..<n]"] j cols(1) n by simp
  moreover have "m_person m ! k = k mod n"
    using nth_tiled [of k "[0..<n]"] k cols(1) n by simp
  ultimately have jk: "j mod n = k mod n" using assms(6) by simp
  have "\<And>xs::int list. length xs = n \<Longrightarrow> (xs @ xs @ xs) ! j = (xs @ xs @ xs) ! k"
    using nth_tiled j k jk by metis
  moreover have "\<And>xs::real list. length xs = n \<Longrightarrow> (xs @ xs @ xs) ! j = (xs @ xs @ xs) ! k"
    using nth_tiled j k jk by metis
  ultimately show ?thesis using cols(4,5,6,7) len(2) lp by simp
qed

theorem entity_columns_constant_witness:
  "one_per_row row_sums \<and> (1::nat) < length (m_person head_melted)
     \<and> (6::nat) < length (m_person head_melted)
     \<and> m_person head_melted ! 1 = m_person head_melted ! 6
     \<and> m_ability head_melted ! 1 = m_ability head_melted ! 6
     \<and> m_pca head_melted ! 1 = m_pca head_melted ! 6
     \<and> m_factor head_melted ! 1 = m_factor head_melted ! 6
     \<and> m_noise head_melted ! 1 = m_noise head_melted ! 6"
proof -
  have a: "(1::nat) < length (m_person head_melted)" "(6::nat) < length (m_person head_melted)"
    "m_person head_melted ! 1 = m_person head_melted ! 6"
    by (simp_all add: head_melted_value)
  from entity_columns_constant [OF one_per_row_row_sums one_per_row_row_sums head_melted_def a]
  show ?thesis using one_per_row_row_sums a by simp
qed

text \<open>
  Claim C4. In every row of the long table, income is 4 plus 3 times the education level
  plus 1 times the ability plus that row's noise term, the sum being the \<open>float64\<close> sum that
  cell 8 computes; the noise term is \<open>sd\<close> times the row's standard-normal draw, as
  \<open>normal(0, sd)\<close> computes it. With \<open>sd = 0\<close> income is exactly
  \<open>4 + 3 * education_level + ability\<close>. A negative \<open>sd\<close> is refused by NumPy and yields no
  table.
\<close>

theorem income_affine:
  assumes "small_counts rk" and "float64_rounding rnd"
    and "make_people rk n g0 = (p, g1)"
    and "add_factors pca_ft fa_ft gk rnd n p g1 = (pf, g2)"
    and "m = fst (assign_income gk rnd sd n (melt pf) g2)"
    and "0 \<le> sd"
    and "j < n * n_years"
    and "noise_term = rnd (0 + rnd (sd * fst (gk (gauss_state gk j g2))))"
  shows "income m ! j =
           rnd (4 + 3 * real_of_int (education_level m ! j) + 1 * real_of_int (m_ability m ! j)
                + noise_term)
     \<and> (sd = 0 \<longrightarrow>
          income m ! j = 4 + 3 * real_of_int (education_level m ! j)
                           + 1 * real_of_int (m_ability m ! j))"
proof -
  let ?y = "4 + 3 * education_level m ! j + m_ability m ! j"
  note inc = income_nth [OF assms(1,2,3,4,5,7)]
  have eps: "fst (normal gk rnd 0 sd (n * n_years) g2) ! j = noise_term"
    using normal_nth [OF assms(7), of gk rnd 0 sd g2] assms(8) by simp
  have first: "income m ! j =
      rnd (4 + 3 * real_of_int (education_level m ! j) + 1 * real_of_int (m_ability m ! j)
           + noise_term)"
    using inc(1) unfolding eps by simp
  have "income m ! j = real_of_int ?y" if "sd = 0"
  proof -
    from that assms(8) have "noise_term = 0" by (simp add: rounding_zero [OF assms(2)])
    with first have "income m ! j = rnd (real_of_int ?y)" by simp
    with rounding_of_int [OF assms(2) inc(2)] show ?thesis by simp
  qed
  with first show ?thesis by simp
qed

theorem income_affine_witness:
  "small_counts replay \<and> make_people replay 5 head_draws = (head_people, [])
     \<and> (0::real) \<le> 0 \<and> (1::nat) < 5 * n_years
     \<and> income head_melted ! 1 = no_rounding (4 + 3 * 3 + 1 * 3 + 0)
     \<and> income head_melted ! 1 = 16"
proof -
  obtain pf g2
    where b: "add_factors row_sums row_sums zero_gauss no_rounding 5 head_people [] = (pf, g2)"
    by (cases "add_factors row_sums row_sums zero_gauss no_rounding 5 head_people []")
  have m: "head_melted = fst (assign_income zero_gauss no_rounding 0 5 (melt pf) g2)"
    using b by (simp add: head_melted_def panel_def make_people_head)
  have j: "(1::nat) < 5 * n_years" by (simp add: n_years_def)
  have s: "(0::real) \<le> 0" by simp
  from income_affine [OF small_counts_replay float64_rounding_no_rounding make_people_head
      b m s j refl]
  show ?thesis
    using small_counts_replay make_people_head j
    by (simp add: head_melted_value no_rounding_def)
qed

section \<open>The regressions\<close>

text \<open>
  The models in the order of the cells: (a) education level and ability, (b) education
  level alone, (c) the mixed model, (d) education level and PCA score, (e) education level
  and factor score, (f) education level and noise.

  Claim C9, as stated, fails: the notebook does not fit exactly five models.
\<close>

theorem not_five_regressions: "\<not> length regressions = 5"
  by (simp add: regressions_def)

text \<open>
  Claim C9, amended. The notebook fits exactly six models, five by ordinary least squares
  and one mixed model, and prints one summary per fitted model, in the order (a) to (f).
\<close>

theorem six_regressions_in_order:
  "report fit summary d =
     [summary (fit (ols [Education_level, Ability]) d),
      summary (fit (ols [Education_level]) d),
      summary (fit (mixedlm [Education_level]) d),
      summary (fit (ols [Education_level, Pca]) d),
      summary (fit (ols [Education_level, Factor]) d),
      summary (fit (ols [Education_level, Noise]) d)]
   \<and> length (report fit summary d) = 6"
  by (simp add: report_def regressions_def)

subsection \<open>Income without noise\<close>

lemma noise_free_income:
  assumes "small_counts rk \<and> float64_rounding rnd"
    and "d = panel rk gk rnd pca_ft fa_ft n 0 g0"
  shows "length (income d) = n * n_years"
    and "length (education_level d) = n * n_years"
    and "length (m_ability d) = n * n_years"
    and "j < n * n_years \<Longrightarrow>
           income d ! j = 4 + 3 * real_of_int (education_level d ! j)
                            + real_of_int (m_ability d ! j)"
proof -
  obtain p g1 pf g2 where a: "make_people rk n g0 = (p, g1)"
    and b: "add_factors pca_ft fa_ft gk rnd n p g1 = (pf, g2)"
    and c: "panel rk gk rnd pca_ft fa_ft n 0 g0 = fst (assign_income gk rnd 0 n (melt pf) g2)"
    using panel_stages [of rk n g0 pca_ft fa_ft gk rnd 0] by blast
  from assms(2) c have m: "d = fst (assign_income gk rnd 0 n (melt pf) g2)" by simp
  note cols = melt_cols [OF a b m]
  note len = make_people_lengths [OF a]
  show le: "length (education_level d) = n * n_years"
    and la: "length (m_ability d) = n * n_years"
    using cols(3,4) len by (simp_all add: n_years_def)
  have "length (eval_income (melt pf)) = n * n_years"
    using le la m by (simp add: length_eval_income assign_income_cols)
  then show "length (income d) = n * n_years"
    using cols(8) by (simp add: length_normal)
  show "income d ! j = 4 + 3 * real_of_int (education_level d ! j)
                            + real_of_int (m_ability d ! j)" if j: "j < n * n_years"
  proof -
    from assms(1) have s: "small_counts rk" and r: "float64_rounding rnd" by simp_all
    let ?y = "4 + 3 * education_level d ! j + m_ability d ! j"
    note inc = income_nth [OF s r a b m j]
    have "fst (normal gk rnd 0 0 (n * n_years) g2) ! j = 0"
      using normal_zero_scale [OF r j] .
    with inc(1) have "income d ! j = rnd (real_of_int ?y)" by simp
    with rounding_of_int [OF r inc(2)] show ?thesis by simp
  qed
qed

lemma sse_nonneg: "0 \<le> sse d ts b"
  by (simp add: sse_def sum_nonneg)

subsection \<open>Model (a): education level and ability\<close>

lemma noncollinear_rows:
  fixes x y z :: real
  assumes "x + y * e1 + z * a1 = 0" and "x + y * e2 + z * a2 = 0" and "x + y * e3 + z * a3 = 0"
    and "(e2 - e1) * (a3 - a1) \<noteq> (e3 - e1) * (a2 - a1)"
  shows "x = 0 \<and> y = 0 \<and> z = 0"
proof -
  let ?D = "(e2 - e1) * (a3 - a1) - (e3 - e1) * (a2 - a1)"
  have D: "?D \<noteq> 0" using assms(4) by simp
  have p: "y * (e2 - e1) + z * (a2 - a1) = 0" using assms(1,2) by (simp add: algebra_simps)
  have q: "y * (e3 - e1) + z * (a3 - a1) = 0" using assms(1,3) by (simp add: algebra_simps)
  have "y * ?D = (y * (e2 - e1) + z * (a2 - a1)) * (a3 - a1)
                 - (y * (e3 - e1) + z * (a3 - a1)) * (a2 - a1)"
    by (simp add: algebra_simps)
  then have "y * ?D = 0" using p q by simp
  then have y: "y = 0" using D by simp
  have "z * ?D = (y * (e3 - e1) + z * (a3 - a1)) * (e2 - e1)
                 - (y * (e2 - e1) + z * (a2 - a1)) * (e3 - e1)"
    by (simp add: algebra_simps)
  then have "z * ?D = 0" using p q by simp
  then have z: "z = 0" using D by simp
  from assms(1) y z show ?thesis by simp
qed

lemma residual_ability_model:
  assumes "small_counts rk \<and> float64_rounding rnd"
    and "d = panel rk gk rnd pca_ft fa_ft n 0 g0" and "j < n * n_years"
  shows "income d ! j - predict [b0, b1, b2] (design_row d [Education_level, Ability] j)
         = (4 - b0) + (3 - b1) * real_of_int (education_level d ! j)
           + (1 - b2) * real_of_int (m_ability d ! j)"
  using noise_free_income [OF assms(1,2)] assms(3)
  by (simp add: design_row_def algebra_simps)

lemma true_coefficients_fit:
  assumes "small_counts rk \<and> float64_rounding rnd"
    and "d = panel rk gk rnd pca_ft fa_ft n 0 g0"
  shows "sse d [Education_level, Ability] [4, 3, 1] = 0"
proof -
  have "(income d ! j - predict [4, 3, 1] (design_row d [Education_level, Ability] j))\<^sup>2 = 0"
    if "j < n * n_years" for j
    using residual_ability_model [OF assms that, of 4 3 1] by simp
  then show ?thesis
    using noise_free_income(1) [OF assms] by (simp add: sse_def)
qed

lemma true_coefficients_least_squares:
  assumes "small_counts rk \<and> float64_rounding rnd"
    and "d = panel rk gk rnd pca_ft fa_ft n 0 g0"
  shows "least_squares d [Education_level, Ability] [4, 3, 1]"
  using true_coefficients_fit [OF assms] sse_nonneg
  by (simp add: least_squares_def)

lemma ability_model_exact:
  assumes "small_counts rk \<and> float64_rounding rnd"
    and "d = panel rk gk rnd pca_ft fa_ft n 0 g0"
    and "i1 < n * n_years" and "i2 < n * n_years" and "i3 < n * n_years"
    and "(education_level d ! i2 - education_level d ! i1) * (m_ability d ! i3 - m_ability d ! i1)
           \<noteq> (education_level d ! i3 - education_level d ! i1)
               * (m_ability d ! i2 - m_ability d ! i1)"
    and "least_squares d [Education_level, Ability] b"
  shows "b = [4, 3, 1]"
proof -
  let ?ts = "[Education_level, Ability]"
  let ?e = "\<lambda>j. real_of_int (education_level d ! j)"
  let ?a = "\<lambda>j. real_of_int (m_ability d ! j)"
  from assms(7) have "length b = 3" by (simp add: least_squares_def)
  then obtain b0 b1 b2 where b: "b = [b0, b1, b2]"
    by (cases b; simp; case_tac list; simp; case_tac lista; simp)
  have "sse d ?ts b \<le> sse d ?ts [4, 3, 1]"
    using assms(7) by (simp add: least_squares_def)
  then have "sse d ?ts b = 0"
    using true_coefficients_fit [OF assms(1,2)] sse_nonneg [of d ?ts b] by simp
  then have "\<forall>j \<in> {..<length (income d)}.
      (income d ! j - predict b (design_row d ?ts j))\<^sup>2 = 0"
    unfolding sse_def by (subst (asm) sum_nonneg_eq_0_iff) simp_all
  then have z: "(4 - b0) + (3 - b1) * ?e j + (1 - b2) * ?a j = 0" if "j < n * n_years" for j
    using that noise_free_income(1) [OF assms(1,2)]
      residual_ability_model [OF assms(1,2) that, of b0 b1 b2] b by simp
  have "(?e i2 - ?e i1) * (?a i3 - ?a i1) \<noteq> (?e i3 - ?e i1) * (?a i2 - ?a i1)"
  proof
    assume "(?e i2 - ?e i1) * (?a i3 - ?a i1) = (?e i3 - ?e i1) * (?a i2 - ?a i1)"
    then have "real_of_int ((education_level d ! i2 - education_level d ! i1)
                 * (m_ability d ! i3 - m_ability d ! i1))
             = real_of_int ((education_level d ! i3 - education_level d ! i1)
                 * (m_ability d ! i2 - m_ability d ! i1))"
      by simp
    then show False using assms(6) by (simp only: of_int_eq_iff)
  qed
  from noncollinear_rows [OF z [OF assms(3)] z [OF assms(4)] z [OF assms(5)] this]
  show ?thesis using b by simp
qed

lemma replayed_head:
  "take 5 (education_level replayed) = [5, 3, 4, 6, 1]
     \<and> take 5 (m_ability replayed) = [3, 3, 3, 5, 3]"
  by code_simp

text \<open>
  Claim C1. In the run with seed 6429, 100 people, three years, abilities drawn at rate 5
  and noise standard deviation 0, the least-squares fit of \<open>income ~ education_level +
  ability\<close> has intercept 4, education coefficient 3 and ability coefficient 1, each within
  \<open>1e-6\<close>; over the reals they are met exactly. The fit is determined as soon as three rows
  of the table do not lie on one line in the plane of education level and ability, which
  is what the first rows printed by cell 9 show for the recorded run. The counts are
  small, so that the conversion of income to \<open>float64\<close> is exact.
\<close>

theorem true_model_recovers_coefficients:
  assumes "small_counts rk" and "float64_rounding rnd"
    and "d = people_melted seed rk gk rnd pca_ft fa_ft"
    and "i1 < n_people * n_years" and "i2 < n_people * n_years" and "i3 < n_people * n_years"
    and "(education_level d ! i2 - education_level d ! i1) * (m_ability d ! i3 - m_ability d ! i1)
           \<noteq> (education_level d ! i3 - education_level d ! i1)
               * (m_ability d ! i2 - m_ability d ! i1)"
    and "least_squares d [Education_level, Ability] b"
  shows "b = [4, 3, 1]
     \<and> \<bar>b ! 0 - 4\<bar> \<le> 1 / 10 ^ 6 \<and> \<bar>b ! 1 - 3\<bar> \<le> 1 / 10 ^ 6 \<and> \<bar>b ! 2 - 1\<bar> \<le> 1 / 10 ^ 6"
proof -
  have d: "d = panel rk gk rnd pca_ft fa_ft n_people 0 (seed 6429)"
    using assms(3) by (simp add: people_melted_def noise_sd_def)
  have "b = [4, 3, 1]"
    by (rule ability_model_exact [OF conjI [OF assms(1,2)] d assms(4,5,6,7,8)])
  then show ?thesis by simp
qed

theorem true_model_recovers_coefficients_witness:
  "small_counts replay
     \<and> take 5 (education_level replayed) = [5, 3, 4, 6, 1]
     \<and> take 5 (m_ability replayed) = [3, 3, 3, 5, 3]
     \<and> sse replayed [Education_level, Ability] [4, 3, 1] = 0
     \<and> \<bar>[4, 3, 1] ! 0 - (4::real)\<bar> \<le> 1 / 10 ^ 6
     \<and> \<bar>[4, 3, 1] ! 1 - (3::real)\<bar> \<le> 1 / 10 ^ 6
     \<and> \<bar>[4, 3, 1] ! 2 - (1::real)\<bar> \<le> 1 / 10 ^ 6"
proof -
  have d: "replayed =
      panel replay zero_gauss no_rounding row_sums row_sums n_people 0 (replay_seed 6429)"
    by (simp add: replayed_def people_melted_def noise_sd_def)
  note c = conjI [OF small_counts_replay float64_rounding_no_rounding]
  have e: "education_level replayed ! 0 = 5" "education_level replayed ! 1 = 3"
    "education_level replayed ! 3 = 6"
    using replayed_head nth_take [of 0 5 "education_level replayed"]
      nth_take [of 1 5 "education_level replayed"] nth_take [of 3 5 "education_level replayed"]
    by simp_all
  have a: "m_ability replayed ! 0 = 3" "m_ability replayed ! 1 = 3" "m_ability replayed ! 3 = 5"
    using replayed_head nth_take [of 0 5 "m_ability replayed"]
      nth_take [of 1 5 "m_ability replayed"] nth_take [of 3 5 "m_ability replayed"]
    by simp_all
  have i: "(0::nat) < n_people * n_years" "(1::nat) < n_people * n_years"
    "(3::nat) < n_people * n_years"
    by (simp_all add: n_people_def n_years_def)
  have r: "(education_level replayed ! 1 - education_level replayed ! 0)
             * (m_ability replayed ! 3 - m_ability replayed ! 0)
           \<noteq> (education_level replayed ! 3 - education_level replayed ! 0)
             * (m_ability replayed ! 1 - m_ability replayed ! 0)"
    unfolding e a by simp
  have l: "least_squares replayed [Education_level, Ability] [4, 3, 1]"
    by (rule true_coefficients_least_squares [OF c d])
  from true_model_recovers_coefficients [OF small_counts_replay float64_rounding_no_rounding
      replayed_def i r l]
  show ?thesis
    using small_counts_replay replayed_head true_coefficients_fit [OF c d]
    by simp
qed

subsection \<open>Model (b): education level alone\<close>

lemma sum_list_nth: "sum_list xs = (\<Sum>j<length xs. xs ! j)" for xs :: "real list"
  by (simp add: sum_list_sum_nth atLeast0LessThan)

lemma quadratic_step:
  fixes t q g :: real
  assumes "t * (q + 1) = g" and "0 \<le> t\<^sup>2 * q - 2 * t * g" and "0 \<le> q"
  shows "g = 0"
proof -
  have "t\<^sup>2 * q - 2 * t * g = - (t\<^sup>2 * (q + 2))"
    unfolding assms(1) [symmetric] by (simp add: power2_eq_square algebra_simps)
  with assms(2) have "t\<^sup>2 * (q + 2) \<le> 0" by simp
  moreover have "0 < q + 2" using assms(3) by simp
  ultimately have "t\<^sup>2 \<le> 0" by (simp add: mult_le_0_iff)
  then have "t = 0" by simp
  with assms(1) show ?thesis by simp
qed

text \<open>
  If moving a coefficient by any amount \<open>t\<close> never lowers the sum of squares, the residuals
  are orthogonal to that coefficient's column.
\<close>

lemma least_squares_orthogonal:
  fixes r c :: "nat \<Rightarrow> real"
  assumes "\<And>t. (\<Sum>j<N. (r j)\<^sup>2) \<le> (\<Sum>j<N. (r j - t * c j)\<^sup>2)"
  shows "(\<Sum>j<N. c j * r j) = 0"
proof -
  let ?g = "\<Sum>j<N. c j * r j"
  let ?q = "\<Sum>j<N. (c j)\<^sup>2"
  let ?s = "\<Sum>j<N. (r j)\<^sup>2"
  have q: "0 \<le> ?q" by (simp add: sum_nonneg)
  have expand: "(\<Sum>j<N. (r j - t * c j)\<^sup>2) = ?s - 2 * t * ?g + t\<^sup>2 * ?q" for t
  proof -
    have "(\<Sum>j<N. (r j - t * c j)\<^sup>2)
        = (\<Sum>j<N. (r j)\<^sup>2 - 2 * t * (c j * r j) + t\<^sup>2 * (c j)\<^sup>2)"
      by (rule sum.cong) (simp_all add: power2_eq_square algebra_simps)
    also have "\<dots> = ?s - 2 * t * ?g + t\<^sup>2 * ?q"
      by (simp add: sum.distrib sum_subtractf sum_distrib_left)
    finally show ?thesis .
  qed
  define t where "t = ?g / (?q + 1)"
  have "t * (?q + 1) = ?g" using q by (simp add: t_def)
  moreover from assms [of t] expand [of t] have "0 \<le> t\<^sup>2 * ?q - 2 * t * ?g" by simp
  ultimately show ?thesis using q by (rule quadratic_step)
qed

lemma spread_nonneg:
  fixes e :: "nat \<Rightarrow> real"
  shows "0 \<le> real N * (\<Sum>j<N. (e j)\<^sup>2) - (\<Sum>j<N. e j)\<^sup>2"
proof (cases "N = 0")
  case True
  then show ?thesis by simp
next
  case False
  let ?S = "\<Sum>j<N. e j"
  let ?Q = "\<Sum>j<N. (e j)\<^sup>2"
  have "0 \<le> (\<Sum>j<N. (real N * e j - ?S)\<^sup>2)" by (simp add: sum_nonneg)
  also have "(\<Sum>j<N. (real N * e j - ?S)\<^sup>2)
      = (\<Sum>j<N. (real N)\<^sup>2 * (e j)\<^sup>2 - 2 * real N * ?S * e j + ?S\<^sup>2)"
    by (rule sum.cong) (simp_all add: power2_eq_square algebra_simps)
  also have "\<dots> = (real N)\<^sup>2 * ?Q - 2 * real N * ?S * ?S + real N * ?S\<^sup>2"
    by (simp add: sum.distrib sum_subtractf sum_distrib_left)
  also have "\<dots> = real N * (real N * ?Q - ?S\<^sup>2)"
    by (simp add: power2_eq_square algebra_simps)
  finally have "0 \<le> real N * (real N * ?Q - ?S\<^sup>2)" .
  with False show ?thesis by (simp add: zero_le_mult_iff)
qed

lemma sum_list_products:
  fixes xs ys :: "real list"
  assumes "length ys = length xs"
  shows "sum_list (map2 (*) xs ys) = (\<Sum>j<length xs. xs ! j * ys ! j)"
  using assms by (simp add: sum_list_nth)

lemma covariance_sums:
  fixes xs ys :: "real list"
  assumes "length xs = N" and "length ys = N" and "0 < covariance xs ys"
  shows "0 < N"
    and "0 < real N * (\<Sum>j<N. xs ! j * ys ! j) - (\<Sum>j<N. xs ! j) * (\<Sum>j<N. ys ! j)"
proof -
  define P where "P = (\<Sum>j<N. xs ! j * ys ! j)"
  define X where "X = (\<Sum>j<N. xs ! j)"
  define Y where "Y = (\<Sum>j<N. ys ! j)"
  have c: "covariance xs ys = P / real N - (X / real N) * (Y / real N)"
    using assms(1,2) sum_list_products [of ys xs]
    by (simp add: covariance_def mean_def sum_list_nth P_def X_def Y_def)
  show n: "0 < N"
  proof (rule ccontr)
    assume "\<not> 0 < N"
    then have "covariance xs ys = 0" using c by simp
    with assms(3) show False by simp
  qed
  have "real N * real N * (P / real N - (X / real N) * (Y / real N)) = real N * P - X * Y"
    using n by (simp add: field_simps)
  moreover have "0 < real N * real N * (P / real N - (X / real N) * (Y / real N))"
    using n assms(3) c by simp
  ultimately show "0 < real N * (\<Sum>j<N. xs ! j * ys ! j) - (\<Sum>j<N. xs ! j) * (\<Sum>j<N. ys ! j)"
    by (simp add: P_def X_def Y_def)
qed

lemma slope_sign:
  fixes V C s :: real
  assumes "s * V = C" and "0 < C" and "0 \<le> V"
  shows "0 < s"
proof (rule ccontr)
  assume "\<not> 0 < s"
  then have "s * V \<le> 0" using assms(3) by (simp add: mult_le_0_iff)
  with assms(1,2) show False by simp
qed

lemma naive_slope_above:
  assumes "small_counts rk \<and> float64_rounding rnd"
    and "d = panel rk gk rnd pca_ft fa_ft n 0 g0"
    and "0 < covariance (column d Education_level) (column d Ability)"
    and "least_squares d [Education_level] b"
  shows "3 < b ! 1"
proof -
  let ?N = "n * n_years"
  define e where "e = (\<lambda>j. real_of_int (education_level d ! j))"
  define a where "a = (\<lambda>j. real_of_int (m_ability d ! j))"
  note inc = noise_free_income [OF assms(1,2)]
  from assms(4) have "length b = 2" by (simp add: least_squares_def)
  then obtain b0 b1 where b: "b = [b0, b1]"
    by (cases b; simp; case_tac list; simp)
  define r where "r = (\<lambda>j. (4 - b0) + (3 - b1) * e j + a j)"
  have res: "income d ! j - predict [c0, c1] (design_row d [Education_level] j)
             = (4 - c0) + (3 - c1) * e j + a j" if "j < ?N" for j c0 c1
    using inc that by (simp add: design_row_def e_def a_def algebra_simps)
  have sse: "sse d [Education_level] [c0, c1] = (\<Sum>j<?N. ((4 - c0) + (3 - c1) * e j + a j)\<^sup>2)"
    for c0 c1
    unfolding sse_def inc(1) by (rule sum.cong [OF refl]) (simp only: lessThan_iff res)
  have least: "sse d [Education_level] [b0, b1] \<le> sse d [Education_level] [c0, c1]" for c0 c1
    using assms(4) b by (simp add: least_squares_def)
  have "(\<Sum>j<?N. (r j)\<^sup>2) \<le> (\<Sum>j<?N. (r j - t * 1)\<^sup>2)" for t
    using least [of "b0 + t" b1] unfolding sse r_def by (simp add: algebra_simps)
  then have "(\<Sum>j<?N. 1 * r j) = 0" by (rule least_squares_orthogonal)
  then have o1: "(\<Sum>j<?N. r j) = 0" by simp
  have "(\<Sum>j<?N. (r j)\<^sup>2) \<le> (\<Sum>j<?N. (r j - t * e j)\<^sup>2)" for t
    using least [of b0 "b1 + t"] unfolding sse r_def by (simp add: algebra_simps)
  then have o2: "(\<Sum>j<?N. e j * r j) = 0" by (rule least_squares_orthogonal)
  define Se where "Se = (\<Sum>j<?N. e j)"
  define Sa where "Sa = (\<Sum>j<?N. a j)"
  define See where "See = (\<Sum>j<?N. (e j)\<^sup>2)"
  define Sea where "Sea = (\<Sum>j<?N. e j * a j)"
  have s1: "real ?N * (4 - b0) + (3 - b1) * Se + Sa = 0"
    using o1 unfolding r_def Se_def Sa_def
    by (simp add: sum.distrib sum_distrib_left)
  have "(\<Sum>j<?N. e j * r j) = (\<Sum>j<?N. (4 - b0) * e j + (3 - b1) * (e j)\<^sup>2 + e j * a j)"
    unfolding r_def by (rule sum.cong) (simp_all add: power2_eq_square algebra_simps)
  also have "\<dots> = (4 - b0) * Se + (3 - b1) * See + Sea"
    unfolding Se_def See_def Sea_def by (simp add: sum.distrib sum_distrib_left)
  finally have s2: "(4 - b0) * Se + (3 - b1) * See + Sea = 0" using o2 by simp
  have le: "length (column d Education_level) = ?N" "length (column d Ability) = ?N"
    using inc(2,3) by simp_all
  have nth: "(\<Sum>j<?N. column d Education_level ! j * column d Ability ! j) = Sea"
    "(\<Sum>j<?N. column d Education_level ! j) = Se" "(\<Sum>j<?N. column d Ability ! j) = Sa"
    unfolding Sea_def Se_def Sa_def e_def a_def using inc(2,3) by simp_all
  have C: "0 < real ?N * Sea - Se * Sa"
    using covariance_sums(2) [OF le assms(3)] unfolding nth .
  have V: "0 \<le> real ?N * See - Se\<^sup>2"
    unfolding See_def Se_def by (rule spread_nonneg)
  have "(b1 - 3) * (real ?N * See - Se\<^sup>2)
      = real ?N * Sea - Se * Sa
        - real ?N * ((4 - b0) * Se + (3 - b1) * See + Sea)
        + Se * (real ?N * (4 - b0) + (3 - b1) * Se + Sa)"
    by (simp add: power2_eq_square algebra_simps)
  then have "(b1 - 3) * (real ?N * See - Se\<^sup>2) = real ?N * Sea - Se * Sa"
    unfolding s1 s2 by simp
  from slope_sign [OF this C V] show ?thesis using b by simp
qed

text \<open>
  Conversely, coefficients whose residuals sum to zero and are orthogonal to the education
  column are a least-squares fit of the naive model.
\<close>

lemma naive_normal_equations:
  assumes "(\<Sum>j<length (income d).
              income d ! j - predict [b0, b1] (design_row d [Education_level] j)) = 0"
    and "(\<Sum>j<length (income d). column d Education_level ! j
              * (income d ! j - predict [b0, b1] (design_row d [Education_level] j))) = 0"
  shows "least_squares d [Education_level] [b0, b1]"
proof -
  let ?N = "length (income d)"
  define e where "e = (\<lambda>j. column d Education_level ! j)"
  define r where "r = (\<lambda>j. income d ! j - predict [b0, b1] (design_row d [Education_level] j))"
  have "sse d [Education_level] [b0, b1] \<le> sse d [Education_level] b'" if "length b' = 2" for b'
  proof -
    from that obtain c0 c1 where b': "b' = [c0, c1]"
      by (cases b'; simp; case_tac list; simp)
    define u where "u = (\<lambda>j. (c0 - b0) + (c1 - b1) * e j)"
    have "sse d [Education_level] b' = (\<Sum>j<?N. (r j - u j)\<^sup>2)"
      unfolding sse_def b' r_def u_def e_def
      by (rule sum.cong) (simp_all add: design_row_def algebra_simps)
    also have "\<dots> = (\<Sum>j<?N. (r j)\<^sup>2 - 2 * (r j * u j) + (u j)\<^sup>2)"
      by (rule sum.cong) (simp_all add: power2_eq_square algebra_simps)
    also have "\<dots> = (\<Sum>j<?N. (r j)\<^sup>2) - 2 * (\<Sum>j<?N. r j * u j) + (\<Sum>j<?N. (u j)\<^sup>2)"
      by (simp add: sum.distrib sum_subtractf sum_distrib_left)
    also have "(\<Sum>j<?N. r j * u j) = (c0 - b0) * (\<Sum>j<?N. r j) + (c1 - b1) * (\<Sum>j<?N. e j * r j)"
    proof -
      have "(\<Sum>j<?N. r j * u j) = (\<Sum>j<?N. (c0 - b0) * r j + (c1 - b1) * (e j * r j))"
        unfolding u_def by (rule sum.cong) (simp_all add: algebra_simps)
      then show ?thesis by (simp add: sum.distrib sum_distrib_left)
    qed
    also have "\<dots> = 0" using assms unfolding r_def e_def by simp
    finally have "sse d [Education_level] b' = (\<Sum>j<?N. (r j)\<^sup>2) + (\<Sum>j<?N. (u j)\<^sup>2)"
      by simp
    moreover have "0 \<le> (\<Sum>j<?N. (u j)\<^sup>2)" by (simp add: sum_nonneg)
    moreover have "sse d [Education_level] [b0, b1] = (\<Sum>j<?N. (r j)\<^sup>2)"
      by (simp add: sse_def r_def)
    ultimately show ?thesis by simp
  qed
  then show ?thesis by (simp add: least_squares_def)
qed

lemma head_naive_fit: "least_squares head_melted [Education_level] [3478 / 509, 1566 / 509]"
  by (rule naive_normal_equations)
    (simp_all add: head_melted_value design_row_def lessThan_Suc eval_nat_numeral)

lemma head_covariance:
  "covariance (column head_melted Education_level) (column head_melted Ability) = 26 / 25"
  by (simp add: head_melted_value covariance_def mean_def)

text \<open>
  Claim C6. When education level and ability are positively correlated in the long table
  (their sample covariance is positive), the least-squares fit of \<open>income ~ education_level\<close>
  has an education coefficient strictly above 3, the coefficient in the formula that
  generates income. The counts are small, so that the conversion of income to \<open>float64\<close>
  is exact.
\<close>

theorem naive_regression_biased_upward:
  assumes "small_counts rk" and "float64_rounding rnd"
    and "d = panel rk gk rnd pca_ft fa_ft n noise_sd g0"
    and "0 < covariance (column d Education_level) (column d Ability)"
    and "least_squares d [Education_level] b"
  shows "3 < b ! 1"
proof -
  have "d = panel rk gk rnd pca_ft fa_ft n 0 g0" using assms(3) by (simp add: noise_sd_def)
  from naive_slope_above [OF conjI [OF assms(1,2)] this assms(4,5)] show ?thesis .
qed

theorem naive_regression_biased_upward_witness:
  "small_counts replay
     \<and> covariance (column head_melted Education_level) (column head_melted Ability) = 26 / 25
     \<and> (3::real) < [3478 / 509, 1566 / 509] ! 1"
proof -
  have d: "head_melted =
      panel replay zero_gauss no_rounding row_sums row_sums 5 noise_sd head_draws"
    by (simp add: head_melted_def noise_sd_def)
  have c: "0 < covariance (column head_melted Education_level) (column head_melted Ability)"
    unfolding head_covariance by simp
  from naive_regression_biased_upward [OF small_counts_replay float64_rounding_no_rounding
      d c head_naive_fit]
  show ?thesis using small_counts_replay head_covariance by simp
qed

end
